theory Spec2Isabelle
  imports Main
begin

section \<open>The point-in-polygon coordinator (src/pip/index.js)\<close>

text \<open>
  The module keeps four globals: \<^verbatim>\<open>requestCount\<close>, \<^verbatim>\<open>workers\<close> (one child
  process per layer), \<^verbatim>\<open>responseQueue\<close> (the pending requests, keyed by request id) and
  \<^verbatim>\<open>wofData\<close> (the merged feature records, keyed by feature id).  They are the fields of
  the record \<open>state\<close>; every function takes the state and returns the new one together
  with the list of effects it performed, or the exception it threw.
\<close>

subsection \<open>Data\<close>

type_synonym layer = string

text \<open>
  Feature identifiers are the integers of the Who's On First data; as keys of the object
  \<^verbatim>\<open>wofData\<close> they never name a property inherited from the prototype.
\<close>

type_synonym wofid = int

text \<open>
  A feature record.  The coordinator reads the field \<^verbatim>\<open>Hierarchy\<close> only: a list of
  objects, each mapping an ancestor type to a feature id.  An object is an association
  list in the order of its keys (insertion order, the keys being no array indices).  An
  absent \<^verbatim>\<open>Hierarchy\<close> and an empty one are the same to \<^verbatim>\<open>_.isEmpty\<close>: the empty list.
  The fields \<open>wof_Id\<close> and \<open>wof_Name\<close> stand for the rest of the record, which the
  coordinator passes on unread.
\<close>

record wof =
  wof_Id :: wofid
  wof_Name :: string
  Hierarchy :: "(string \<times> wofid) list list"

record 'a latLon =
  latitude :: 'a
  longitude :: 'a

text \<open>The child process forked by \<^verbatim>\<open>startWorker\<close> for a layer.\<close>

datatype worker = Worker layer

text \<open>The bookkeeping object of a request; \<open>'cb\<close> is the type of completion callbacks.\<close>

record ('a, 'cb) request =
  results :: "wof list"
  latLon :: "'a latLon"
  search_layers :: "layer list"
  responseCallback :: 'cb

record ('a, 'cb) state =
  requestCount :: nat
  workers :: "layer \<rightharpoonup> worker"
  responseQueue :: "nat \<rightharpoonup> ('a, 'cb) request"
  wofData :: "wofid \<rightharpoonup> wof"

text \<open>
  A \<^verbatim>\<open>results\<close> message of a worker: the request id and the match.  \<open>None\<close> is an
  empty \<^verbatim>\<open>msg.results\<close> (a miss), \<open>Some i\<close> a match whose \<^verbatim>\<open>Id\<close> is \<open>i\<close>.
\<close>

record results_msg =
  msg_id :: nat
  msg_results :: "wofid option"

datatype error = TypeError

datatype logged = MissingId nat | AlreadyPresent nat

text \<open>
  What a call does besides changing the globals: \<open>Send w i c\<close> is
  \<^verbatim>\<open>w.send({type: 'search', id: i, coords: c})\<close>, \<open>Respond cb rs\<close> is the call
  \<^verbatim>\<open>cb(null, rs)\<close> of a completion callback, \<open>LogError\<close> is \<^verbatim>\<open>logger.error\<close>.
  A callback is the caller's code: it is taken to return, and not to call back into the
  module before it does.
\<close>

datatype ('a, 'cb) effect =
    Send worker nat "'a latLon"
  | Respond 'cb "wof list"
  | LogError logged

definition defaultLayers :: "layer list" where
  "defaultLayers =
     [''neighbourhood'', ''borough'', ''locality'', ''localadmin'', ''county'',
      ''macrocounty'', ''macroregion'', ''region'', ''dependency'', ''country'',
      ''marinearea'', ''ocean'']"

subsection \<open>The lodash functions the module calls\<close>

text \<open>
  \<^verbatim>\<open>_.intersection(xs, ys)\<close>: the unique values of \<open>xs\<close> that are in \<open>ys\<close>, in the order
  of \<open>xs\<close>, each at its first occurrence.
\<close>

fun uniq :: "'a list \<Rightarrow> 'a list \<Rightarrow> 'a list" where
  "uniq seen [] = []"
| "uniq seen (x # xs) = (if x \<in> set seen then uniq seen xs else x # uniq (x # seen) xs)"

definition lodash_intersection :: "'a list \<Rightarrow> 'a list \<Rightarrow> 'a list" where
  "lodash_intersection xs ys = uniq [] (filter (\<lambda>x. x \<in> set ys) xs)"

text \<open>\<^verbatim>\<open>_.values(obj)\<close>: the values of the object's own keys, in key order.\<close>

definition lodash_values :: "('k \<times> 'v) list \<Rightarrow> 'v list" where
  "lodash_values obj = map snd obj"

text \<open>
  \<^verbatim>\<open>_.compact(xs)\<close> drops the falsy elements.  The elements here are the results of
  \<^verbatim>\<open>wofData[id]\<close>: a record (an object, truthy) or \<^verbatim>\<open>undefined\<close>.
\<close>

fun lodash_compact :: "'a option list \<Rightarrow> 'a list" where
  "lodash_compact [] = []"
| "lodash_compact (None # xs) = lodash_compact xs"
| "lodash_compact (Some x # xs) = x # lodash_compact xs"

subsection \<open>createPIPService: the layers of the service\<close>

text \<open>
  Line 42.  \<open>None\<close> is an argument \<^verbatim>\<open>layers\<close> that is \<^verbatim>\<open>undefined\<close>;
  \<^verbatim>\<open>_.isEmpty\<close> holds of it and of the empty array.
\<close>

definition createPIPService_layers :: "layer list option \<Rightarrow> layer list" where
  "createPIPService_layers layers =
     lodash_intersection defaultLayers
       (case layers of None \<Rightarrow> defaultLayers
        | Some ls \<Rightarrow> if ls = [] then defaultLayers else ls)"

subsection \<open>searchWorker, lookup, handleResults\<close>

text \<open>
  \<^verbatim>\<open>requestCount++\<close> on a JavaScript number: exact below \<open>2^53\<close>; at \<open>2^53\<close> the sum
  \<open>2^53 + 1\<close> is rounded back to \<open>2^53\<close>.
\<close>

definition js_incr :: "nat \<Rightarrow> nat" where
  "js_incr n = (if n < 2 ^ 53 then n + 1 else n)"

text \<open>\<^verbatim>\<open>worker.send\<close> on an \<^verbatim>\<open>undefined\<close> worker throws a TypeError.\<close>

definition searchWorker ::
  "nat \<Rightarrow> worker option \<Rightarrow> 'a latLon \<Rightarrow> error + ('a, 'cb) effect" where
  "searchWorker i w coords =
     (case w of None \<Rightarrow> Inl TypeError | Some wk \<Rightarrow> Inr (Send wk i coords))"

text \<open>Lines 57 to 65: the layers a lookup searches; \<open>requested\<close> is the argument
  \<^verbatim>\<open>search_layers\<close>, \<open>None\<close> when it is \<^verbatim>\<open>undefined\<close>.\<close>

definition lookup_layers :: "layer list \<Rightarrow> layer list option \<Rightarrow> layer list" where
  "lookup_layers layers requested =
     (case requested of
        None \<Rightarrow> layers
      | Some ls \<Rightarrow> lodash_intersection layers ls)"

text \<open>
  The \<^verbatim>\<open>lookup\<close> function of the service handle; \<open>layers\<close> is the variable of the
  closure.  The entry is stored with a copy of the whole list; \<^verbatim>\<open>search_layers.shift()\<close>
  then takes the head \<open>l\<close> off the queue the entry holds, before the worker is called.
\<close>

definition lookup ::
  "layer list \<Rightarrow> ('a, 'cb) state \<Rightarrow> 'a \<Rightarrow> 'a \<Rightarrow> layer list option \<Rightarrow> 'cb
     \<Rightarrow> error + (('a, 'cb) state \<times> ('a, 'cb) effect list)" where
  "lookup layers st lat lon requested cb =
     (let sl = lookup_layers layers requested;
          i = requestCount st;
          st1 = st\<lparr>requestCount := js_incr (requestCount st)\<rparr>
      in case sl of
           [] \<Rightarrow> Inr (st1, [Respond cb []])
         | l # rest \<Rightarrow>
             (case responseQueue st1 i of
                Some _ \<Rightarrow> Inr (st1, [LogError (AlreadyPresent i), Respond cb []])
              | None \<Rightarrow>
                  (let req = \<lparr>results = [], latLon = \<lparr>latitude = lat, longitude = lon\<rparr>,
                              search_layers = sl, responseCallback = cb\<rparr>;
                       st2 = st1\<lparr>responseQueue := (responseQueue st1)(i \<mapsto> req)\<rparr>;
                       st3 = st2\<lparr>responseQueue :=
                                   (responseQueue st2)(i \<mapsto> req\<lparr>search_layers := rest\<rparr>)\<rparr>
                   in case searchWorker i (workers st3 l) (latLon req) of
                        Inl e \<Rightarrow> Inl e
                      | Inr eff \<Rightarrow> Inr (st3, [eff]))))"

text \<open>Lines 164 to 175: the result list of a hit on the record \<open>r\<close>.\<close>

definition hierarchy_results :: "(wofid \<rightharpoonup> wof) \<Rightarrow> wof \<Rightarrow> wof list" where
  "hierarchy_results dat r =
     (case Hierarchy r of
        [] \<Rightarrow> [r]
      | h # _ \<Rightarrow> lodash_compact (map dat (lodash_values h)))"

text \<open>
  \<^verbatim>\<open>handleResults\<close>.  On a hit, \<^verbatim>\<open>wofData[msg.results.Id].Hierarchy\<close> throws a
  TypeError when the matched id is no key of \<^verbatim>\<open>wofData\<close>.  The entry is deleted in the
  branch of a hit only (line 177).
\<close>

definition handleResults ::
  "('a, 'cb) state \<Rightarrow> results_msg
     \<Rightarrow> error + (('a, 'cb) state \<times> ('a, 'cb) effect list)" where
  "handleResults st msg =
     (case responseQueue st (msg_id msg) of
        None \<Rightarrow> Inr (st, [LogError (MissingId (msg_id msg))])
      | Some req \<Rightarrow>
          (case msg_results msg of
             None \<Rightarrow>
               (case search_layers req of
                  l # rest \<Rightarrow>
                    (let st1 = st\<lparr>responseQueue :=
                                   (responseQueue st)(msg_id msg \<mapsto> req\<lparr>search_layers := rest\<rparr>)\<rparr>
                     in case searchWorker (msg_id msg) (workers st1 l) (latLon req) of
                          Inl e \<Rightarrow> Inl e
                        | Inr eff \<Rightarrow> Inr (st1, [eff]))
                | [] \<Rightarrow> Inr (st, [Respond (responseCallback req) []]))
           | Some fid \<Rightarrow>
               (case wofData st fid of
                  None \<Rightarrow> Inl TypeError
                | Some r \<Rightarrow>
                    Inr (st\<lparr>responseQueue := (responseQueue st)(msg_id msg := None)\<rparr>,
                         [Respond (responseCallback req) (hierarchy_results (wofData st) r)]))))"

subsection \<open>The coordinator with its workers\<close>

text \<open>
  The handlers run one at a time, each to completion, driven by two kinds of events: a
  caller invokes \<^verbatim>\<open>lookup\<close>, or the \<^verbatim>\<open>results\<close> message of a worker arrives.  A
  worker answers only a \<^verbatim>\<open>search\<close> message it was sent, once, with the id of that
  message: \<open>outstanding\<close> lists the searches sent and not yet answered.

  The other three fields are history variables, kept per request id for the request that
  holds the id: \<open>plan\<close> is the list of layers the request was created with, \<open>sent\<close> the
  layers it was dispatched to so far, in order, and \<open>answered\<close> the number of misses
  received for it.  They are reset when a new entry is stored under the id.
\<close>

record ('a, 'cb) system =
  coord :: "('a, 'cb) state"
  outstanding :: "(worker \<times> nat) list"
  plan :: "nat \<Rightarrow> layer list"
  sent :: "nat \<Rightarrow> layer list"
  answered :: "nat \<Rightarrow> nat"

datatype ('a, 'cb) event =
    Call 'a 'a "layer list option" 'cb
  | Reply worker nat "wofid option"

fun layer_of :: "worker \<Rightarrow> layer" where
  "layer_of (Worker l) = l"

text \<open>The search messages among the effects of a call: the worker and the request id.\<close>

fun sends :: "('a, 'cb) effect list \<Rightarrow> (worker \<times> nat) list" where
  "sends [] = []"
| "sends (Send w i c # es) = (w, i) # sends es"
| "sends (Respond cb rs # es) = sends es"
| "sends (LogError m # es) = sends es"

fun note_sent :: "(worker \<times> nat) list \<Rightarrow> (nat \<Rightarrow> layer list) \<Rightarrow> nat \<Rightarrow> layer list" where
  "note_sent [] g = g"
| "note_sent ((w, i) # ms) g = note_sent ms (g(i := g i @ [layer_of w]))"

definition step ::
  "layer list \<Rightarrow> ('a, 'cb) system \<Rightarrow> ('a, 'cb) event \<Rightarrow> ('a, 'cb) system option" where
  "step layers s ev =
     (case ev of
        Call lat lon requested cb \<Rightarrow>
          (case lookup layers (coord s) lat lon requested cb of
             Inl e \<Rightarrow> None
           | Inr (st, effs) \<Rightarrow>
               (let i = requestCount (coord s);
                    created = (responseQueue (coord s) i = None \<and> responseQueue st i \<noteq> None)
                in Some (s\<lparr>coord := st,
                           outstanding := outstanding s @ sends effs,
                           plan := (if created then (plan s)(i := lookup_layers layers requested)
                                    else plan s),
                           sent := note_sent (sends effs)
                                     (if created then (sent s)(i := []) else sent s),
                           answered := (if created then (answered s)(i := 0) else answered s)\<rparr>)))
      | Reply w i r \<Rightarrow>
          (if (w, i) \<in> set (outstanding s) then
             (case handleResults (coord s) \<lparr>msg_id = i, msg_results = r\<rparr> of
                Inl e \<Rightarrow> None
              | Inr (st, effs) \<Rightarrow>
                  Some (s\<lparr>coord := st,
                          outstanding := remove1 (w, i) (outstanding s) @ sends effs,
                          sent := note_sent (sends effs) (sent s),
                          answered := (if r = None then (answered s)(i := Suc (answered s i))
                                       else answered s)\<rparr>))
           else None))"

text \<open>A run is \<open>None\<close> when a handler throws or a reply answers no outstanding search.\<close>

fun run ::
  "layer list \<Rightarrow> ('a, 'cb) system \<Rightarrow> ('a, 'cb) event list \<Rightarrow> ('a, 'cb) system option" where
  "run layers s [] = Some s"
| "run layers s (ev # evs) =
     (case step layers s ev of None \<Rightarrow> None | Some s' \<Rightarrow> run layers s' evs)"

text \<open>
  What \<^verbatim>\<open>createPIPService\<close> has established when it hands out the service: the layers
  are distinct, and \<^verbatim>\<open>workers[layer]\<close> is the process forked for that layer.
\<close>

definition pool_ready :: "layer list \<Rightarrow> ('a, 'cb) state \<Rightarrow> bool" where
  "pool_ready layers st \<longleftrightarrow>
     distinct layers \<and> (\<forall>l. l \<in> set layers \<longrightarrow> workers st l = Some (Worker l))"

definition cascade_inv :: "layer list \<Rightarrow> ('a, 'cb) system \<Rightarrow> bool" where
  "cascade_inv layers s \<longleftrightarrow>
     distinct (map snd (outstanding s)) \<and>
     (\<forall>w i. (w, i) \<in> set (outstanding s) \<longrightarrow>
        responseQueue (coord s) i \<noteq> None \<and> sent s i \<noteq> [] \<and> w = Worker (last (sent s i))) \<and>
     (\<forall>i req. responseQueue (coord s) i = Some req \<longrightarrow>
        sent s i @ search_layers req = plan s i \<and>
        distinct (plan s i) \<and>
        set (plan s i) \<subseteq> set layers \<and>
        filter (\<lambda>l. l \<in> set (plan s i)) layers = plan s i \<and>
        length (sent s i) =
          answered s i + (if i \<in> snd ` set (outstanding s) then 1 else 0))"

text \<open>The message loop on \<^verbatim>\<open>results\<close> messages alone, with the effects of all of them.\<close>

fun handleAll ::
  "('a, 'cb) state \<Rightarrow> results_msg list
     \<Rightarrow> error + (('a, 'cb) state \<times> ('a, 'cb) effect list)" where
  "handleAll st [] = Inr (st, [])"
| "handleAll st (m # ms) =
     (case handleResults st m of
        Inl e \<Rightarrow> Inl e
      | Inr (st1, effs1) \<Rightarrow>
          (case handleAll st1 ms of
             Inl e \<Rightarrow> Inl e
           | Inr (st2, effs2) \<Rightarrow> Inr (st2, effs1 @ effs2)))"

section \<open>The postal-code table (src/postalCityMap.js)\<close>

text \<open>
  A JavaScript string is a sequence of UTF-16 code units, the numbers below 65536, and
  the regular expressions of the module (none has the flag \<^verbatim>\<open>u\<close>) work on code units.
  \<open>js\<close> writes a string of ASCII characters as such a sequence.
\<close>

type_synonym code_unit = nat

type_synonym jsstring = "code_unit list"

definition js :: "string \<Rightarrow> jsstring" where
  "js s = map of_char s"

record alternative =
  alt_wofid :: jsstring
  alt_name :: jsstring
  alt_abbr :: "jsstring option"
  alt_placetype :: "jsstring option"
  alt_weight :: int

type_synonym postal_table = "jsstring \<rightharpoonup> alternative list"

definition USA_ISO_CODES :: "jsstring list" where
  "USA_ISO_CODES = map js [''USA'', ''ASM'', ''GUM'', ''MNP'', ''PRI'', ''VIR'']"

text \<open>
  The object \<^verbatim>\<open>tables\<close>: seven keys.  What \<^verbatim>\<open>loadTable\<close> reads from the files under
  \<^verbatim>\<open>data/\<close> is not part of the sources; it is the parameter \<open>loadTable\<close>.
\<close>

definition tables :: "(jsstring \<Rightarrow> postal_table) \<Rightarrow> (jsstring \<rightharpoonup> postal_table)" where
  "tables loadTable =
     [js ''ASM'' \<mapsto> loadTable (js ''ASM''), js ''GUM'' \<mapsto> loadTable (js ''GUM''),
      js ''MNP'' \<mapsto> loadTable (js ''MNP''), js ''PRI'' \<mapsto> loadTable (js ''PRI''),
      js ''USA'' \<mapsto> loadTable (js ''USA''), js ''VIR'' \<mapsto> loadTable (js ''VIR''),
      js ''NZL'' \<mapsto> loadTable (js ''NZL'')]"

text \<open>\<^verbatim>\<open>\d\<close>: the digits 0 to 9, U+0030 to U+0039; \<^verbatim>\<open>\D\<close> is every other code unit.\<close>

definition is_digit :: "code_unit \<Rightarrow> bool" where
  "is_digit c \<longleftrightarrow> c \<in> set [48, 49, 50, 51, 52, 53, 54, 55, 56, 57]"

text \<open>
  The line terminators, which \<^verbatim>\<open>.\<close> does not match: U+000A, U+000D, U+2028, U+2029.
\<close>

definition is_line_terminator :: "code_unit \<Rightarrow> bool" where
  "is_line_terminator c \<longleftrightarrow> c \<in> set [10, 13, 8232, 8233]"

text \<open>
  \<^verbatim>\<open>\s\<close>: the white space and the line terminators of ECMAScript.  These are U+0009 to
  U+000D, U+0020, U+00A0, U+FEFF, U+2028, U+2029 and the space separators of Unicode (from
  version 6.3 on): U+1680, U+2000 to U+200A, U+202F, U+205F, U+3000.
\<close>

definition is_space :: "code_unit \<Rightarrow> bool" where
  "is_space c \<longleftrightarrow>
     c \<in> set [9, 10, 11, 12, 13, 32, 160, 5760,
              8192, 8193, 8194, 8195, 8196, 8197, 8198, 8199, 8200, 8201, 8202,
              8232, 8233, 8239, 8287, 12288, 65279]"

text \<open>\<^verbatim>\<open>postcode.match(/\d{5}/)\<close>: the leftmost five consecutive digits.\<close>

fun match_five_digits :: "jsstring \<Rightarrow> jsstring option" where
  "match_five_digits [] = None"
| "match_five_digits (c # cs) =
     (if 5 \<le> length (c # cs) \<and> list_all is_digit (take 5 (c # cs))
      then Some (take 5 (c # cs)) else match_five_digits cs)"

text \<open>
  \<^verbatim>\<open>postcode.replace(/-.*$/, '')\<close>: the leftmost hyphen (U+002D) that no line terminator
  follows is removed with everything after it.
\<close>

fun strip_zip4 :: "jsstring \<Rightarrow> jsstring" where
  "strip_zip4 [] = []"
| "strip_zip4 (c # cs) =
     (if c = 45 \<and> \<not> list_ex is_line_terminator cs then [] else c # strip_zip4 cs)"

text \<open>
  \<^verbatim>\<open>normalizePostcode\<close>.  \<open>isocode\<close> is \<open>None\<close> when the argument is left out, as
  \<^verbatim>\<open>loadTable\<close> does.  \<^verbatim>\<open>String.prototype.toUpperCase\<close> is the case conversion of the
  JavaScript engine over all of Unicode, no code of this module: it is the parameter
  \<open>toUpperCase\<close>, and nothing is assumed of it.
\<close>

definition normalizePostcode ::
  "(jsstring \<Rightarrow> jsstring) \<Rightarrow> jsstring \<Rightarrow> jsstring option \<Rightarrow> jsstring" where
  "normalizePostcode toUpperCase postcode isocode =
     (if (case isocode of None \<Rightarrow> False | Some cc \<Rightarrow> cc \<in> set USA_ISO_CODES) then
        (case match_five_digits postcode of
           Some m \<Rightarrow> m
         | None \<Rightarrow> take 5 (filter is_digit (strip_zip4 postcode)))
      else filter (\<lambda>c. \<not> is_space c) (toUpperCase postcode))"

text \<open>
  The exported \<^verbatim>\<open>lookup\<close>.  The module's state is the object \<^verbatim>\<open>tables\<close>; the function
  returns its result (\<open>None\<close> is \<^verbatim>\<open>null\<close>) and the state after the call.
\<close>

definition postalCityMap_lookup ::
  "(jsstring \<Rightarrow> jsstring) \<Rightarrow> (jsstring \<rightharpoonup> postal_table) \<Rightarrow> jsstring \<Rightarrow> jsstring
     \<Rightarrow> alternative list option \<times> (jsstring \<rightharpoonup> postal_table)" where
  "postalCityMap_lookup toUpperCase tabs isocode postalcode =
     (case tabs isocode of
        None \<Rightarrow> (None, tabs)
      | Some t \<Rightarrow>
          (let pc = normalizePostcode toUpperCase postalcode (Some isocode)
           in case t pc of
                None \<Rightarrow> (None, tabs)
              | Some alts \<Rightarrow> (Some alts, tabs)))"

section \<open>Example values\<close>

definition record_X :: wof where
  "record_X = \<lparr>wof_Id = 1, wof_Name = ''X'', Hierarchy = []\<rparr>"

definition record_US :: wof where
  "record_US = \<lparr>wof_Id = 85633793, wof_Name = ''United States'', Hierarchy = []\<rparr>"

definition record_NY :: wof where
  "record_NY = \<lparr>wof_Id = 85977539, wof_Name = ''New York'',
     Hierarchy = [[(''continent_id'', 102191575), (''country_id'', 85633793),
                   (''locality_id'', 85977539)]]\<rparr>"

definition example_layers :: "layer list" where
  "example_layers = [''neighbourhood'', ''locality'', ''country'']"

definition example_state :: "(int, nat) state" where
  "example_state =
     \<lparr>requestCount = 0,
      workers = (\<lambda>l. if l \<in> set example_layers then Some (Worker l) else None),
      responseQueue = Map.empty,
      wofData = [1 \<mapsto> record_X, 85633793 \<mapsto> record_US, 85977539 \<mapsto> record_NY]\<rparr>"

definition example_request :: "layer list \<Rightarrow> nat \<Rightarrow> (int, nat) request" where
  "example_request ls cb =
     \<lparr>results = [], latLon = \<lparr>latitude = 40, longitude = -73\<rparr>, search_layers = ls,
      responseCallback = cb\<rparr>"

definition example_system :: "(int, nat) system" where
  "example_system =
     \<lparr>coord = example_state, outstanding = [], plan = (\<lambda>i. []), sent = (\<lambda>i. []),
      answered = (\<lambda>i. 0)\<rparr>"

text \<open>
  \<^verbatim>\<open>toUpperCase\<close> on strings whose code units are all below 128, and two small tables.
\<close>

definition example_toUpperCase :: "jsstring \<Rightarrow> jsstring" where
  "example_toUpperCase s = map (\<lambda>c. if 97 \<le> c \<and> c \<le> 122 then c - 32 else c) s"

definition beverly_hills :: alternative where
  "beverly_hills =
     \<lparr>alt_wofid = js ''85865951'', alt_name = js ''Beverly Hills'', alt_abbr = None,
      alt_placetype = Some (js ''locality''), alt_weight = 5\<rparr>"

definition wellington :: alternative where
  "wellington =
     \<lparr>alt_wofid = js ''101915529'', alt_name = js ''Wellington'', alt_abbr = None,
      alt_placetype = Some (js ''locality''), alt_weight = 1\<rparr>"

definition example_loadTable :: "jsstring \<Rightarrow> postal_table" where
  "example_loadTable cc =
     (if cc = js ''USA'' then [js ''90210'' \<mapsto> [beverly_hills], js ''9021'' \<mapsto> []]
      else if cc = js ''NZL'' then [js ''6011'' \<mapsto> [wellington], js ''AB12'' \<mapsto> [wellington]]
      else Map.empty)"

section \<open>Results\<close>

subsection \<open>Facts about the layers\<close>

lemma uniq_distinct_input:
  "distinct xs \<Longrightarrow> uniq seen xs = filter (\<lambda>x. x \<notin> set seen) xs"
  by (induction xs arbitrary: seen) (auto intro: filter_cong)

lemma lodash_intersection_distinct:
  "distinct xs \<Longrightarrow> lodash_intersection xs ys = filter (\<lambda>x. x \<in> set ys) xs"
  by (simp add: lodash_intersection_def uniq_distinct_input)

lemma distinct_defaultLayers: "distinct defaultLayers"
  by (simp add: defaultLayers_def)

lemma filter_defaultLayers_self: "filter (\<lambda>x. x \<in> set defaultLayers) defaultLayers = defaultLayers"
  by (rule filter_True) simp

lemma createPIPService_layers_filter:
  "createPIPService_layers requested =
     (case requested of
        None \<Rightarrow> defaultLayers
      | Some rs \<Rightarrow> if rs = [] then defaultLayers else filter (\<lambda>l. l \<in> set rs) defaultLayers)"
  by (simp add: createPIPService_layers_def lodash_intersection_distinct distinct_defaultLayers
      filter_defaultLayers_self split: option.split)

lemma distinct_createPIPService_layers: "distinct (createPIPService_layers requested)"
  by (simp add: createPIPService_layers_filter distinct_defaultLayers split: option.split)

subsection \<open>Facts about the handlers\<close>

lemma lodash_compact_map:
  "lodash_compact (map dat xs) = map (\<lambda>a. the (dat a)) (filter (\<lambda>a. dat a \<noteq> None) xs)"
  by (induction xs) (auto split: option.splits)

lemma handleResults_exhausted:
  "responseQueue st (msg_id msg) = Some req \<Longrightarrow> msg_results msg = None \<Longrightarrow>
   search_layers req = [] \<Longrightarrow>
   handleResults st msg = Inr (st, [Respond (responseCallback req) []])"
  by (simp add: handleResults_def)

lemma handleResults_absent_stays:
  assumes "responseQueue st i = None" and "handleResults st m = Inr (st', effs)"
  shows "responseQueue st' i = None \<and> (\<forall>w c. Send w i c \<notin> set effs)"
proof (cases "msg_id m = i")
  case True
  with assms show ?thesis by (auto simp: handleResults_def)
next
  case False
  with assms show ?thesis
    by (auto simp: handleResults_def searchWorker_def
        split: option.splits list.splits sum.splits)
qed

lemma handleAll_absent_stays:
  "responseQueue st i = None \<Longrightarrow> handleAll st ms = Inr (st', effs) \<Longrightarrow>
   responseQueue st' i = None \<and> (\<forall>w c. Send w i c \<notin> set effs)"
proof (induction ms arbitrary: st st' effs)
  case Nil
  then show ?case by simp
next
  case (Cons m ms)
  from Cons.prems(2) obtain st1 effs1 st2 effs2 where
    h1: "handleResults st m = Inr (st1, effs1)" and
    h2: "handleAll st1 ms = Inr (st2, effs2)" and
    eq: "st' = st2" "effs = effs1 @ effs2"
    by (auto split: sum.splits)
  from handleResults_absent_stays [OF Cons.prems(1) h1]
  have a: "responseQueue st1 i = None" and b: "\<forall>w c. Send w i c \<notin> set effs1" by auto
  from Cons.IH [OF a h2] b eq show ?case by auto
qed

subsection \<open>The cascade invariant\<close>

lemma lookup_layers_props:
  "distinct layers \<Longrightarrow>
   distinct (lookup_layers layers requested) \<and> set (lookup_layers layers requested) \<subseteq> set layers"
  by (cases requested) (auto simp: lookup_layers_def lodash_intersection_distinct)

lemma lookup_layers_in_order:
  assumes "distinct layers"
  shows "filter (\<lambda>l. l \<in> set (lookup_layers layers requested)) layers =
           lookup_layers layers requested"
proof (cases requested)
  case None
  then show ?thesis by (simp add: lookup_layers_def)
next
  case (Some ls)
  have "filter (\<lambda>l. l \<in> set (filter (\<lambda>x. x \<in> set ls) layers)) layers =
          filter (\<lambda>x. x \<in> set ls) layers"
    by (rule filter_cong) auto
  with Some assms show ?thesis
    by (simp add: lookup_layers_def lodash_intersection_distinct)
qed

lemma remove1_ids:
  assumes "distinct (map snd xs)" and "(w, i) \<in> set xs"
  shows "distinct (map snd (remove1 (w, i) xs))"
    and "snd ` set (remove1 (w, i) xs) = snd ` set xs - {i}"
    and "set (remove1 (w, i) xs) = set xs - {(w, i)}"
proof -
  from assms(1) have d: "distinct xs" and inj: "inj_on snd (set xs)"
    by (simp_all add: distinct_map)
  show s: "set (remove1 (w, i) xs) = set xs - {(w, i)}"
    using d by simp
  have "inj_on snd (set (remove1 (w, i) xs))"
    by (rule inj_on_subset [OF inj]) (simp add: s)
  then show "distinct (map snd (remove1 (w, i) xs))"
    using d by (simp add: distinct_map)
  show "snd ` set (remove1 (w, i) xs) = snd ` set xs - {i}"
  proof
    show "snd ` set (remove1 (w, i) xs) \<subseteq> snd ` set xs - {i}"
    proof
      fix j assume "j \<in> snd ` set (remove1 (w, i) xs)"
      then obtain p where "p \<in> set xs - {(w, i)}" and "snd p = j"
        unfolding s by blast
      then obtain w' where m: "(w', j) \<in> set xs" and ne: "(w', j) \<noteq> (w, i)"
        by (cases p) auto
      have "j \<noteq> i"
      proof
        assume "j = i"
        with inj_onD [OF inj, of "(w', j)" "(w, i)"] m assms(2)
        have "(w', j) = (w, i)" by simp
        with ne show False by simp
      qed
      with m show "j \<in> snd ` set xs - {i}" by force
    qed
    show "snd ` set xs - {i} \<subseteq> snd ` set (remove1 (w, i) xs)"
      using s by force
  qed
qed

lemma step_Call_inv:
  assumes ready: "pool_ready layers (coord s)"
    and inv: "cascade_inv layers s"
    and st: "step layers s (Call lat lon requested cb) = Some s'"
  shows "cascade_inv layers s' \<and> pool_ready layers (coord s')"
proof -
  let ?sl = "lookup_layers layers requested"
  let ?i = "requestCount (coord s)"
  from ready have dl: "distinct layers"
    and wk: "\<And>l. l \<in> set layers \<Longrightarrow> workers (coord s) l = Some (Worker l)"
    by (auto simp: pool_ready_def)
  from lookup_layers_props [OF dl] have dsl: "distinct ?sl" and ssl: "set ?sl \<subseteq> set layers"
    by auto
  from lookup_layers_in_order [OF dl]
  have osl: "filter (\<lambda>l. l \<in> set ?sl) layers = ?sl" .
  show ?thesis
  proof (cases "?sl = [] \<or> responseQueue (coord s) ?i \<noteq> None")
    case True
    have s': "s' = s\<lparr>coord := (coord s)\<lparr>requestCount := js_incr ?i\<rparr>\<rparr>"
    proof (cases "responseQueue (coord s) ?i")
      case None
      with True have "?sl = []" by simp
      with st None show ?thesis
        by (simp add: step_def lookup_def Let_def)
    next
      case (Some r)
      with st show ?thesis
        by (cases ?sl) (simp_all add: step_def lookup_def Let_def)
    qed
    with inv ready show ?thesis
      by (simp add: cascade_inv_def pool_ready_def)
  next
    case False
    then obtain l rest where sl: "?sl = l # rest" and free: "responseQueue (coord s) ?i = None"
      by (cases ?sl) auto
    from sl ssl have "l \<in> set layers" by auto
    then have w: "workers (coord s) l = Some (Worker l)" by (rule wk)
    let ?req = "\<lparr>results = [], latLon = \<lparr>latitude = lat, longitude = lon\<rparr>,
                  search_layers = rest, responseCallback = cb\<rparr>"
    from st sl free w have s': "s' = s\<lparr>coord := (coord s)\<lparr>requestCount := js_incr ?i,
                     responseQueue := (responseQueue (coord s))(?i \<mapsto> ?req)\<rparr>,
                  outstanding := outstanding s @ [(Worker l, ?i)],
                  plan := (plan s)(?i := l # rest),
                  sent := (sent s)(?i := [l]),
                  answered := (answered s)(?i := 0)\<rparr>"
      by (simp add: step_def lookup_def Let_def searchWorker_def)
    from inv free have notout': "\<And>w. (w, ?i) \<notin> set (outstanding s)"
      by (force simp: cascade_inv_def)
    then have notout: "?i \<notin> snd ` set (outstanding s)"
      by force
    have a: "distinct (map snd (outstanding s'))"
      using inv notout by (simp add: s' cascade_inv_def)
    have b: "\<forall>w i. (w, i) \<in> set (outstanding s') \<longrightarrow>
                 responseQueue (coord s') i \<noteq> None \<and> sent s' i \<noteq> [] \<and>
                 w = Worker (last (sent s' i))"
      using inv notout' by (auto simp: s' cascade_inv_def)
    have c: "\<forall>i req. responseQueue (coord s') i = Some req \<longrightarrow>
        sent s' i @ search_layers req = plan s' i \<and>
        distinct (plan s' i) \<and>
        set (plan s' i) \<subseteq> set layers \<and>
        filter (\<lambda>l. l \<in> set (plan s' i)) layers = plan s' i \<and>
        length (sent s' i) =
          answered s' i + (if i \<in> snd ` set (outstanding s') then 1 else 0)"
    proof (intro allI impI)
      fix i req assume p: "responseQueue (coord s') i = Some req"
      show "sent s' i @ search_layers req = plan s' i \<and>
        distinct (plan s' i) \<and>
        set (plan s' i) \<subseteq> set layers \<and>
        filter (\<lambda>l. l \<in> set (plan s' i)) layers = plan s' i \<and>
        length (sent s' i) =
          answered s' i + (if i \<in> snd ` set (outstanding s') then 1 else 0)"
      proof (cases "i = ?i")
        case True
        with p dsl ssl osl sl show ?thesis by (auto simp: s')
      next
        case False
        with p inv show ?thesis by (simp add: s' cascade_inv_def)
      qed
    qed
    from a b c have "cascade_inv layers s'"
      unfolding cascade_inv_def by blast
    moreover have "pool_ready layers (coord s')"
      using ready by (simp add: s' pool_ready_def)
    ultimately show ?thesis ..
  qed
qed


lemma step_Reply_inv:
  assumes ready: "pool_ready layers (coord s)"
    and inv: "cascade_inv layers s"
    and st: "step layers s (Reply w i r) = Some s'"
  shows "cascade_inv layers s' \<and> pool_ready layers (coord s')"
proof -
  from ready have wk: "\<And>l. l \<in> set layers \<Longrightarrow> workers (coord s) l = Some (Worker l)"
    by (auto simp: pool_ready_def)
  from st have out: "(w, i) \<in> set (outstanding s)"
    by (auto simp: step_def split: if_splits)
  from inv have d: "distinct (map snd (outstanding s))"
    and B: "\<And>w j. (w, j) \<in> set (outstanding s) \<Longrightarrow>
              responseQueue (coord s) j \<noteq> None \<and> sent s j \<noteq> [] \<and> w = Worker (last (sent s j))"
    and C: "\<And>j rq. responseQueue (coord s) j = Some rq \<Longrightarrow>
              sent s j @ search_layers rq = plan s j \<and> distinct (plan s j) \<and>
              set (plan s j) \<subseteq> set layers \<and>
              filter (\<lambda>l. l \<in> set (plan s j)) layers = plan s j \<and>
              length (sent s j) = answered s j + (if j \<in> snd ` set (outstanding s) then 1 else 0)"
    by (auto simp: cascade_inv_def)
  from B [OF out] obtain req where req: "responseQueue (coord s) i = Some req" by auto
  note R = remove1_ids [OF d out]
  let ?out = "remove1 (w, i) (outstanding s)"
  have iout: "i \<in> snd ` set (outstanding s)" using out by force
  have inot: "i \<notin> snd ` set ?out" using R(2) by simp
  have other: "\<And>j. j \<noteq> i \<Longrightarrow> (j \<in> snd ` set ?out) = (j \<in> snd ` set (outstanding s))"
    using R(2) by auto
  have sub: "\<And>w j. (w, j) \<in> set ?out \<Longrightarrow> (w, j) \<in> set (outstanding s) \<and> j \<noteq> i"
  proof -
    fix w' j assume m: "(w', j) \<in> set ?out"
    then have "j \<in> snd ` set ?out" by force
    with inot have "j \<noteq> i" by auto
    with m R(3) show "(w', j) \<in> set (outstanding s) \<and> j \<noteq> i" by simp
  qed
  consider (hit) fid rec where "r = Some fid" "wofData (coord s) fid = Some rec"
    | (exhausted) "r = None" "search_layers req = []"
    | (next_layer) l rest where "r = None" "search_layers req = l # rest"
  proof (cases r)
    case None
    then show ?thesis using that(2,3) by (cases "search_layers req") auto
  next
    case (Some fid)
    with st out req have "wofData (coord s) fid \<noteq> None"
      by (auto simp: step_def handleResults_def split: option.splits)
    with Some that(1) show ?thesis by auto
  qed
  then show ?thesis
  proof cases
    case hit
    with st out req have s': "s' = s\<lparr>coord := (coord s)\<lparr>responseQueue :=
                        (responseQueue (coord s))(i := None)\<rparr>,
                     outstanding := ?out\<rparr>"
      by (simp add: step_def handleResults_def)
    have a: "distinct (map snd (outstanding s'))" using R(1) by (simp add: s')
    have b: "\<forall>w j. (w, j) \<in> set (outstanding s') \<longrightarrow>
                 responseQueue (coord s') j \<noteq> None \<and> sent s' j \<noteq> [] \<and>
                 w = Worker (last (sent s' j))"
    proof (intro allI impI)
      fix w' j assume "(w', j) \<in> set (outstanding s')"
      then have "(w', j) \<in> set ?out" by (simp add: s')
      from sub [OF this] have m0: "(w', j) \<in> set (outstanding s)" and ne: "j \<noteq> i"
        by simp_all
      from B [OF m0] ne
      show "responseQueue (coord s') j \<noteq> None \<and> sent s' j \<noteq> [] \<and>
            w' = Worker (last (sent s' j))"
        by (simp add: s')
    qed
    have c: "\<forall>j rq. responseQueue (coord s') j = Some rq \<longrightarrow>
        sent s' j @ search_layers rq = plan s' j \<and> distinct (plan s' j) \<and>
        set (plan s' j) \<subseteq> set layers \<and>
        filter (\<lambda>l. l \<in> set (plan s' j)) layers = plan s' j \<and>
        length (sent s' j) =
          answered s' j + (if j \<in> snd ` set (outstanding s') then 1 else 0)"
    proof (intro allI impI)
      fix j rq assume p: "responseQueue (coord s') j = Some rq"
      then have ne: "j \<noteq> i" and p0: "responseQueue (coord s) j = Some rq"
        by (auto simp: s' split: if_splits)
      from C [OF p0] other [OF ne]
      show "sent s' j @ search_layers rq = plan s' j \<and> distinct (plan s' j) \<and>
        set (plan s' j) \<subseteq> set layers \<and>
        filter (\<lambda>l. l \<in> set (plan s' j)) layers = plan s' j \<and>
        length (sent s' j) =
          answered s' j + (if j \<in> snd ` set (outstanding s') then 1 else 0)"
        by (simp add: s')
    qed
    from a b c have "cascade_inv layers s'" unfolding cascade_inv_def by blast
    moreover have "pool_ready layers (coord s')" using ready by (simp add: s' pool_ready_def)
    ultimately show ?thesis ..
  next
    case exhausted
    with st out req have s': "s' = s\<lparr>outstanding := ?out,
                     answered := (answered s)(i := Suc (answered s i))\<rparr>"
      by (simp add: step_def handleResults_def)
    have a: "distinct (map snd (outstanding s'))" using R(1) by (simp add: s')
    have b: "\<forall>w j. (w, j) \<in> set (outstanding s') \<longrightarrow>
                 responseQueue (coord s') j \<noteq> None \<and> sent s' j \<noteq> [] \<and>
                 w = Worker (last (sent s' j))"
    proof (intro allI impI)
      fix w' j assume "(w', j) \<in> set (outstanding s')"
      then have "(w', j) \<in> set ?out" by (simp add: s')
      from sub [OF this] have m0: "(w', j) \<in> set (outstanding s)" and ne: "j \<noteq> i"
        by simp_all
      from B [OF m0] ne
      show "responseQueue (coord s') j \<noteq> None \<and> sent s' j \<noteq> [] \<and>
            w' = Worker (last (sent s' j))"
        by (simp add: s')
    qed
    have c: "\<forall>j rq. responseQueue (coord s') j = Some rq \<longrightarrow>
        sent s' j @ search_layers rq = plan s' j \<and> distinct (plan s' j) \<and>
        set (plan s' j) \<subseteq> set layers \<and>
        filter (\<lambda>l. l \<in> set (plan s' j)) layers = plan s' j \<and>
        length (sent s' j) =
          answered s' j + (if j \<in> snd ` set (outstanding s') then 1 else 0)"
    proof (intro allI impI)
      fix j rq assume p: "responseQueue (coord s') j = Some rq"
      then have p0: "responseQueue (coord s) j = Some rq" by (simp add: s')
      show "sent s' j @ search_layers rq = plan s' j \<and> distinct (plan s' j) \<and>
        set (plan s' j) \<subseteq> set layers \<and>
        filter (\<lambda>l. l \<in> set (plan s' j)) layers = plan s' j \<and>
        length (sent s' j) =
          answered s' j + (if j \<in> snd ` set (outstanding s') then 1 else 0)"
      proof (cases "j = i")
        case True
        with C [OF p0] iout inot show ?thesis by (simp add: s')
      next
        case False
        with C [OF p0] other [OF False] show ?thesis by (simp add: s')
      qed
    qed
    from a b c have "cascade_inv layers s'" unfolding cascade_inv_def by blast
    moreover have "pool_ready layers (coord s')" using ready by (simp add: s' pool_ready_def)
    ultimately show ?thesis ..
  next
    case next_layer
    from C [OF req] next_layer(2) have "sent s i @ l # rest = plan s i"
      and "set (plan s i) \<subseteq> set layers" by simp_all
    then have "l \<in> set (plan s i)" "set (plan s i) \<subseteq> set layers"
      by (metis in_set_conv_decomp, simp)
    then have "l \<in> set layers" by blast
    then have w: "workers (coord s) l = Some (Worker l)" by (rule wk)
    from st out req next_layer w have s': "s' = s\<lparr>coord := (coord s)\<lparr>responseQueue :=
                        (responseQueue (coord s))(i \<mapsto> req\<lparr>search_layers := rest\<rparr>)\<rparr>,
                     outstanding := ?out @ [(Worker l, i)],
                     sent := (sent s)(i := sent s i @ [l]),
                     answered := (answered s)(i := Suc (answered s i))\<rparr>"
      by (simp add: step_def handleResults_def searchWorker_def)
    have a: "distinct (map snd (outstanding s'))" using R(1) inot by (simp add: s')
    have b: "\<forall>w j. (w, j) \<in> set (outstanding s') \<longrightarrow>
                 responseQueue (coord s') j \<noteq> None \<and> sent s' j \<noteq> [] \<and>
                 w = Worker (last (sent s' j))"
    proof (intro allI impI)
      fix w' j assume "(w', j) \<in> set (outstanding s')"
      then consider "(w', j) \<in> set ?out" | "w' = Worker l" "j = i"
        by (auto simp: s')
      then show "responseQueue (coord s') j \<noteq> None \<and> sent s' j \<noteq> [] \<and>
            w' = Worker (last (sent s' j))"
      proof cases
        case 1
        from sub [OF 1] have m0: "(w', j) \<in> set (outstanding s)" and ne: "j \<noteq> i"
          by simp_all
        from B [OF m0] ne show ?thesis by (simp add: s')
      next
        case 2
        then show ?thesis by (simp add: s')
      qed
    qed
    have c: "\<forall>j rq. responseQueue (coord s') j = Some rq \<longrightarrow>
        sent s' j @ search_layers rq = plan s' j \<and> distinct (plan s' j) \<and>
        set (plan s' j) \<subseteq> set layers \<and>
        filter (\<lambda>l. l \<in> set (plan s' j)) layers = plan s' j \<and>
        length (sent s' j) =
          answered s' j + (if j \<in> snd ` set (outstanding s') then 1 else 0)"
    proof (intro allI impI)
      fix j rq assume p: "responseQueue (coord s') j = Some rq"
      show "sent s' j @ search_layers rq = plan s' j \<and> distinct (plan s' j) \<and>
        set (plan s' j) \<subseteq> set layers \<and>
        filter (\<lambda>l. l \<in> set (plan s' j)) layers = plan s' j \<and>
        length (sent s' j) =
          answered s' j + (if j \<in> snd ` set (outstanding s') then 1 else 0)"
      proof (cases "j = i")
        case True
        with p have rq: "rq = req\<lparr>search_layers := rest\<rparr>" by (simp add: s')
        from C [OF req] next_layer(2) iout True rq show ?thesis by (simp add: s')
      next
        case False
        with p have p0: "responseQueue (coord s) j = Some rq" by (simp add: s')
        with C [OF p0] other [OF False] False show ?thesis by (simp add: s')
      qed
    qed
    from a b c have "cascade_inv layers s'" unfolding cascade_inv_def by blast
    moreover have "pool_ready layers (coord s')" using ready by (simp add: s' pool_ready_def)
    ultimately show ?thesis ..
  qed
qed

lemma step_inv:
  "pool_ready layers (coord s) \<Longrightarrow> cascade_inv layers s \<Longrightarrow> step layers s ev = Some s' \<Longrightarrow>
   cascade_inv layers s' \<and> pool_ready layers (coord s')"
  by (cases ev) (auto dest: step_Call_inv step_Reply_inv)

lemma run_inv:
  "pool_ready layers (coord s) \<Longrightarrow> cascade_inv layers s \<Longrightarrow> run layers s evs = Some s' \<Longrightarrow>
   cascade_inv layers s' \<and> pool_ready layers (coord s')"
proof (induction evs arbitrary: s)
  case Nil
  then show ?case by simp
next
  case (Cons ev evs)
  from Cons.prems(3) obtain s1 where s1: "step layers s ev = Some s1"
    and r: "run layers s1 evs = Some s'"
    by (auto split: option.splits)
  from step_inv [OF Cons.prems(1,2) s1]
  have i1: "cascade_inv layers s1" and p1: "pool_ready layers (coord s1)"
    by auto
  from Cons.IH [OF p1 i1 r] show ?case .
qed

subsection \<open>Facts about the postal-code table\<close>

lemma tables_apply:
  "tables loadTable isocode =
     (if isocode \<in> set (map js [''ASM'', ''GUM'', ''MNP'', ''PRI'', ''USA'', ''VIR'', ''NZL''])
      then Some (loadTable isocode) else None)"
  by (simp add: tables_def)

lemma normalizePostcode_Some:
  "normalizePostcode toUpperCase postcode (Some isocode) =
     (if isocode \<in> set (map js [''USA'', ''ASM'', ''GUM'', ''MNP'', ''PRI'', ''VIR''])
      then (case match_five_digits postcode of
              Some m \<Rightarrow> m
            | None \<Rightarrow> take 5 (filter is_digit (strip_zip4 postcode)))
      else filter (\<lambda>c. \<not> is_space c) (toUpperCase postcode))"
  by (simp only: normalizePostcode_def USA_ISO_CODES_def option.case)

subsection \<open>The claims\<close>


text \<open>
  C7.  A \<^verbatim>\<open>results\<close> message whose id is no key of \<^verbatim>\<open>responseQueue\<close> is logged and
  dropped: the handler returns without an exception, calls no callback, sends nothing,
  and leaves every global as it was.
\<close>

theorem handleResults_unknown_id:
  "responseQueue st (msg_id msg) = None \<Longrightarrow>
     handleResults st msg = Inr (st, [LogError (MissingId (msg_id msg))])"
  by (simp add: handleResults_def)

theorem handleResults_unknown_id_witness:
  "handleResults example_state \<lparr>msg_id = 7, msg_results = Some 1\<rparr>
     = Inr (example_state, [LogError (MissingId 7)])"
  using handleResults_unknown_id [of example_state "\<lparr>msg_id = 7, msg_results = Some 1\<rparr>"]
  by (simp add: example_state_def)

text \<open>
  C10.  The tolerance of partial datasets covers the ancestors only.  When a worker
  reports a match whose id is no key of \<^verbatim>\<open>wofData\<close>, the handler reads
  \<^verbatim>\<open>.Hierarchy\<close> of \<^verbatim>\<open>undefined\<close> and throws; the request is not resolved.
\<close>

theorem handleResults_hit_unknown_feature_throws:
  "responseQueue st (msg_id msg) = Some req \<Longrightarrow> msg_results msg = Some fid \<Longrightarrow>
   wofData st fid = None \<Longrightarrow> handleResults st msg = Inl TypeError"
  by (simp add: handleResults_def)

theorem handleResults_hit_unknown_feature_throws_witness:
  "handleResults (example_state\<lparr>responseQueue := [0 \<mapsto> example_request [''country''] 7]\<rparr>)
      \<lparr>msg_id = 0, msg_results = Some 42\<rparr> = Inl TypeError"
  using handleResults_hit_unknown_feature_throws
    [of "example_state\<lparr>responseQueue := [0 \<mapsto> example_request [''country''] 7]\<rparr>"
        "\<lparr>msg_id = 0, msg_results = Some 42\<rparr>" "example_request [''country''] 7" 42]
  by (simp add: example_state_def)

text \<open>
  C2.  A lookup whose list of layers to search is empty calls its callback at once with
  \<^verbatim>\<open>(null, [])\<close>, and that call is all it does: no error, no \<open>Send\<close> to any worker,
  no entry in \<^verbatim>\<open>responseQueue\<close>.  Of the globals only the request counter changes.
\<close>

theorem lookup_no_layers:
  "lookup_layers layers requested = [] \<Longrightarrow>
     lookup layers st lat lon requested cb =
       Inr (st\<lparr>requestCount := js_incr (requestCount st)\<rparr>, [Respond cb []])"
  by (simp add: lookup_def)

theorem lookup_no_layers_witness:
  "lookup_layers example_layers (Some [''ocean'', ''planet'']) = []
   \<and> lookup example_layers example_state 40 (-73) (Some [''ocean'', ''planet'']) 7 =
       Inr (example_state\<lparr>requestCount := js_incr (requestCount example_state)\<rparr>, [Respond 7 []])"
proof -
  have h: "lookup_layers example_layers (Some [''ocean'', ''planet'']) = []"
    by (simp add: lookup_layers_def lodash_intersection_def example_layers_def)
  show ?thesis
    using h lookup_no_layers [OF h, of example_state 40 "-73" 7] by simp
qed

text \<open>
  C3, as the code has it.  \<^verbatim>\<open>createPIPService\<close> keeps the requested layers that are
  default layers, in the order of \<^verbatim>\<open>defaultLayers\<close>, and all default layers when the
  request is empty or absent.  \<^verbatim>\<open>lookup\<close> keeps the requested layers that are layers
  of the service, in the same order; it searches all layers of the service only when its
  argument is \<^verbatim>\<open>undefined\<close>.  Requesting country and neighbourhood gives neighbourhood
  before country.
\<close>

theorem effective_layers:
  "createPIPService_layers requested =
     (case requested of
        None \<Rightarrow> defaultLayers
      | Some rs \<Rightarrow> if rs = [] then defaultLayers else filter (\<lambda>l. l \<in> set rs) defaultLayers)
   \<and> lookup_layers (createPIPService_layers requested) None = createPIPService_layers requested
   \<and> lookup_layers (createPIPService_layers requested) (Some ls) =
       filter (\<lambda>l. l \<in> set ls) (createPIPService_layers requested)
   \<and> createPIPService_layers (Some [''country'', ''neighbourhood'']) =
       [''neighbourhood'', ''country'']
   \<and> lookup_layers (createPIPService_layers None) (Some [''country'', ''neighbourhood'']) =
       [''neighbourhood'', ''country'']"
proof -
  have a: "lookup_layers (createPIPService_layers requested) (Some ls) =
       filter (\<lambda>l. l \<in> set ls) (createPIPService_layers requested)"
    by (simp add: lookup_layers_def lodash_intersection_distinct distinct_createPIPService_layers)
  have b: "createPIPService_layers (Some [''country'', ''neighbourhood'']) =
       [''neighbourhood'', ''country'']"
    by (simp add: createPIPService_layers_filter defaultLayers_def)
  have c: "lookup_layers (createPIPService_layers None) (Some [''country'', ''neighbourhood'']) =
       [''neighbourhood'', ''country'']"
    by (simp add: lookup_layers_def lodash_intersection_distinct distinct_createPIPService_layers)
       (simp add: createPIPService_layers_filter defaultLayers_def)
  show ?thesis
    using a b c by (simp add: createPIPService_layers_filter lookup_layers_def)
qed

text \<open>
  C3 as stated fails for \<^verbatim>\<open>lookup\<close>: an empty array selects no layer at all (not the
  full set), and a layer the service was not created with is not searched although it
  is a default layer.
\<close>

theorem lookup_empty_list_counterexample:
  "lookup_layers (createPIPService_layers (Some [])) (Some []) = []
   \<and> createPIPService_layers (Some []) = defaultLayers
   \<and> lookup_layers (createPIPService_layers (Some [''country''])) (Some [''country'', ''neighbourhood''])
       = [''country'']"
  by (simp add: lookup_layers_def lodash_intersection_def createPIPService_layers_def defaultLayers_def)

text \<open>
  C6.  A hit on a feature that is in \<^verbatim>\<open>wofData\<close> resolves the request and deletes its
  entry.  When the record's hierarchy is not empty, the result holds the records of the
  ids of its first mapping that are keys of \<^verbatim>\<open>wofData\<close>, in the order of the mapping's
  keys; the other ids are dropped.  When the hierarchy is empty, the result is the matched
  record alone.
\<close>

theorem hit_assembles_hierarchy:
  assumes "responseQueue st (msg_id msg) = Some req"
    and "msg_results msg = Some fid"
    and "wofData st fid = Some r"
  shows "handleResults st msg =
     Inr (st\<lparr>responseQueue := (responseQueue st)(msg_id msg := None)\<rparr>,
          [Respond (responseCallback req)
             (case Hierarchy r of
                [] \<Rightarrow> [r]
              | h # hs \<Rightarrow> map (\<lambda>a. the (wofData st a))
                           (filter (\<lambda>a. wofData st a \<noteq> None) (map snd h)))])"
proof -
  have "hierarchy_results (wofData st) r =
          (case Hierarchy r of
             [] \<Rightarrow> [r]
           | h # hs \<Rightarrow> map (\<lambda>a. the (wofData st a))
                        (filter (\<lambda>a. wofData st a \<noteq> None) (map snd h)))"
    by (simp only: hierarchy_results_def lodash_values_def lodash_compact_map)
  with assms show ?thesis
    by (simp add: handleResults_def)
qed

theorem hit_assembles_hierarchy_witness:
  "handleResults (example_state\<lparr>responseQueue := [0 \<mapsto> example_request [''country''] 7]\<rparr>)
      \<lparr>msg_id = 0, msg_results = Some 85977539\<rparr> =
     Inr (example_state\<lparr>responseQueue := Map.empty\<rparr>, [Respond 7 [record_US, record_NY]])
   \<and> handleResults (example_state\<lparr>responseQueue := [0 \<mapsto> example_request [''country''] 7]\<rparr>)
      \<lparr>msg_id = 0, msg_results = Some 1\<rparr> =
     Inr (example_state\<lparr>responseQueue := Map.empty\<rparr>, [Respond 7 [record_X]])"
  using hit_assembles_hierarchy
    [of "example_state\<lparr>responseQueue := [0 \<mapsto> example_request [''country''] 7]\<rparr>"
        "\<lparr>msg_id = 0, msg_results = Some 85977539\<rparr>" "example_request [''country''] 7"
        85977539 record_NY]
    hit_assembles_hierarchy
    [of "example_state\<lparr>responseQueue := [0 \<mapsto> example_request [''country''] 7]\<rparr>"
        "\<lparr>msg_id = 0, msg_results = Some 1\<rparr>" "example_request [''country''] 7"
        1 record_X]
  by (simp add: example_state_def example_request_def record_NY_def record_X_def)

text \<open>
  C8.  Assembly reads \<^verbatim>\<open>wofData\<close> and never writes it: two requests that hit the same
  feature, one handled after the other, are resolved with the same list.
\<close>

theorem assembly_repeatable:
  assumes "responseQueue st i = Some req1"
    and "responseQueue st j = Some req2"
    and "i \<noteq> j"
    and "wofData st fid = Some r"
  shows "handleResults st \<lparr>msg_id = i, msg_results = Some fid\<rparr> =
           Inr (st\<lparr>responseQueue := (responseQueue st)(i := None)\<rparr>,
                [Respond (responseCallback req1) (hierarchy_results (wofData st) r)])
       \<and> handleResults (st\<lparr>responseQueue := (responseQueue st)(i := None)\<rparr>)
             \<lparr>msg_id = j, msg_results = Some fid\<rparr> =
           Inr (st\<lparr>responseQueue := (responseQueue st)(i := None, j := None)\<rparr>,
                [Respond (responseCallback req2) (hierarchy_results (wofData st) r)])"
  using assms by (simp add: handleResults_def)

theorem assembly_repeatable_witness:
  "handleResults (example_state\<lparr>responseQueue :=
        [0 \<mapsto> example_request [''country''] 7, 1 \<mapsto> example_request [] 8]\<rparr>)
      \<lparr>msg_id = 0, msg_results = Some 85977539\<rparr> =
     Inr (example_state\<lparr>responseQueue := [1 \<mapsto> example_request [] 8]\<rparr>,
          [Respond 7 [record_US, record_NY]])
   \<and> handleResults (example_state\<lparr>responseQueue := [1 \<mapsto> example_request [] 8]\<rparr>)
      \<lparr>msg_id = 1, msg_results = Some 85977539\<rparr> =
     Inr (example_state\<lparr>responseQueue := Map.empty\<rparr>, [Respond 8 [record_US, record_NY]])"
  using assembly_repeatable
    [of "example_state\<lparr>responseQueue :=
           [0 \<mapsto> example_request [''country''] 7, 1 \<mapsto> example_request [] 8]\<rparr>"
        0 "example_request [''country''] 7" 1 "example_request [] 8" 85977539 record_NY]
  by (simp add: example_state_def example_request_def record_NY_def record_US_def
      hierarchy_results_def lodash_values_def fun_upd_twist)

text \<open>
  C1, where the code departs from it.  A miss that finds the queue of its request empty
  calls the callback with the empty list, but the entry stays in \<^verbatim>\<open>responseQueue\<close>:
  the \<^verbatim>\<open>delete\<close> of line 177 stands in the branch of a hit only.  Here a lookup on the
  layer country alone is answered by a miss; the entry of request 0 is still there, and
  handling such a message leaves the state as it was.
\<close>

theorem exhausted_request_stays_in_table:
  "map_option (\<lambda>s. (responseQueue (coord s) 0, outstanding s))
     (run example_layers example_system
        [Call 40 (-73) (Some [''country'']) 7, Reply (Worker ''country'') 0 None])
   = Some (Some (example_request [] 7), [])
   \<and> handleResults (example_state\<lparr>responseQueue := [0 \<mapsto> example_request [] 7]\<rparr>)
        \<lparr>msg_id = 0, msg_results = None\<rparr>
     = Inr (example_state\<lparr>responseQueue := [0 \<mapsto> example_request [] 7]\<rparr>, [Respond 7 []])"
  by (simp add: step_def lookup_def lookup_layers_def lodash_intersection_def
      example_layers_def example_state_def example_system_def example_request_def js_incr_def
      searchWorker_def handleResults_def)

text \<open>
  C4.  Take a service whose workers are in place, with no request pending, and any
  sequence of lookups and of replies of workers to searches they were sent.  In every
  state reached: no two outstanding searches carry the same request id; an outstanding
  search of a request went to the worker of the layer dispatched last for it; and for
  every pending request, the layers dispatched so far followed by the queue are the
  layers the request was created with, which are distinct and in the order of the
  service's layers (a layer leaves the front of the queue when it is dispatched and is
  dispatched once), and the number of layers dispatched is the number of misses received,
  plus one when a search is outstanding (the next layer is dispatched only on the miss
  that answers the one before).
\<close>

theorem cascade_one_at_a_time:
  assumes "pool_ready layers (coord s0)"
    and "responseQueue (coord s0) = Map.empty"
    and "outstanding s0 = []"
    and "run layers s0 evs = Some s"
  shows "distinct (map snd (outstanding s)) \<and>
     (\<forall>w i. (w, i) \<in> set (outstanding s) \<longrightarrow>
        responseQueue (coord s) i \<noteq> None \<and> sent s i \<noteq> [] \<and> w = Worker (last (sent s i))) \<and>
     (\<forall>i req. responseQueue (coord s) i = Some req \<longrightarrow>
        sent s i @ search_layers req = plan s i \<and>
        distinct (plan s i) \<and>
        filter (\<lambda>l. l \<in> set (plan s i)) layers = plan s i \<and>
        length (sent s i) =
          answered s i + (if i \<in> snd ` set (outstanding s) then 1 else 0))"
proof -
  from assms(2,3) have "cascade_inv layers s0"
    by (simp add: cascade_inv_def)
  from run_inv [OF assms(1) this assms(4)] have "cascade_inv layers s" ..
  then show ?thesis
    unfolding cascade_inv_def by blast
qed

theorem cascade_one_at_a_time_witness:
  "pool_ready example_layers (coord example_system) \<and>
   responseQueue (coord example_system) = Map.empty \<and>
   outstanding example_system = [] \<and>
   (\<exists>s. run example_layers example_system
          [Call 40 (-73) None 7, Reply (Worker ''neighbourhood'') 0 None,
           Reply (Worker ''locality'') 0 None] = Some s \<and>
        outstanding s = [(Worker ''country'', 0)] \<and>
        sent s 0 = [''neighbourhood'', ''locality'', ''country''] \<and>
        answered s 0 = 2 \<and>
        distinct (map snd (outstanding s)) \<and>
        distinct (plan s 0))"
proof -
  have h1: "pool_ready example_layers (coord example_system)"
    by (simp add: pool_ready_def example_system_def example_state_def example_layers_def)
  have h2: "responseQueue (coord example_system) = Map.empty"
    by (simp add: example_system_def example_state_def)
  have h3: "outstanding example_system = []"
    by (simp add: example_system_def)
  have "\<exists>s. run example_layers example_system
          [Call 40 (-73) None 7, Reply (Worker ''neighbourhood'') 0 None,
           Reply (Worker ''locality'') 0 None] = Some s \<and>
        outstanding s = [(Worker ''country'', 0)] \<and>
        sent s 0 = [''neighbourhood'', ''locality'', ''country''] \<and>
        answered s 0 = 2 \<and>
        responseQueue (coord s) 0 \<noteq> None"
    by (simp add: step_def lookup_def lookup_layers_def example_layers_def example_state_def
        example_system_def js_incr_def searchWorker_def handleResults_def)
  then obtain s where r: "run example_layers example_system
          [Call 40 (-73) None 7, Reply (Worker ''neighbourhood'') 0 None,
           Reply (Worker ''locality'') 0 None] = Some s"
    and v: "outstanding s = [(Worker ''country'', 0)]"
      "sent s 0 = [''neighbourhood'', ''locality'', ''country'']" "answered s 0 = 2"
    and p: "responseQueue (coord s) 0 \<noteq> None"
    by blast
  from cascade_one_at_a_time [OF h1 h2 h3 r] p
  have "distinct (map snd (outstanding s))" and "distinct (plan s 0)"
    by auto
  with h1 h2 h3 r v show ?thesis by blast
qed

text \<open>
  C5, as the code has it.  On a hit for a pending request the handler sends no search.
  When the matched feature is in \<^verbatim>\<open>wofData\<close>, the callback receives the assembled
  hierarchy and the entry is deleted, and from then on no \<^verbatim>\<open>results\<close> message makes
  the coordinator send a search with that request id (a handler that throws has sent
  nothing).  When the matched feature is not in \<^verbatim>\<open>wofData\<close>, the handler throws a
  TypeError and the request is not resolved.
\<close>

theorem first_hit_wins:
  assumes "responseQueue st (msg_id msg) = Some req"
    and "msg_results msg = Some fid"
  shows "case wofData st fid of
           None \<Rightarrow> handleResults st msg = Inl TypeError
         | Some r \<Rightarrow>
             handleResults st msg =
               Inr (st\<lparr>responseQueue := (responseQueue st)(msg_id msg := None)\<rparr>,
                    [Respond (responseCallback req)
                       (case Hierarchy r of
                          [] \<Rightarrow> [r]
                        | h # hs \<Rightarrow> map (\<lambda>a. the (wofData st a))
                                     (filter (\<lambda>a. wofData st a \<noteq> None) (map snd h)))])
             \<and> (\<forall>ms st' effs.
                   handleAll (st\<lparr>responseQueue := (responseQueue st)(msg_id msg := None)\<rparr>) ms
                     = Inr (st', effs) \<longrightarrow>
                   responseQueue st' (msg_id msg) = None \<and>
                   (\<forall>w c. Send w (msg_id msg) c \<notin> set effs))"
proof (cases "wofData st fid")
  case None
  with assms show ?thesis by (simp add: handleResults_def)
next
  case (Some r)
  let ?st = "st\<lparr>responseQueue := (responseQueue st)(msg_id msg := None)\<rparr>"
  have hr: "hierarchy_results (wofData st) r =
          (case Hierarchy r of
             [] \<Rightarrow> [r]
           | h # hs \<Rightarrow> map (\<lambda>a. the (wofData st a))
                        (filter (\<lambda>a. wofData st a \<noteq> None) (map snd h)))"
    by (simp only: hierarchy_results_def lodash_values_def lodash_compact_map)
  have a: "handleResults st msg =
      Inr (?st, [Respond (responseCallback req) (hierarchy_results (wofData st) r)])"
    using assms Some by (simp add: handleResults_def)
  have "responseQueue ?st (msg_id msg) = None" by simp
  then have b: "\<forall>ms st' effs. handleAll ?st ms = Inr (st', effs) \<longrightarrow>
      responseQueue st' (msg_id msg) = None \<and> (\<forall>w c. Send w (msg_id msg) c \<notin> set effs)"
    using handleAll_absent_stays by blast
  from a b show ?thesis
    unfolding Some option.case hr by (rule conjI)
qed

theorem first_hit_wins_witness:
  "handleResults
      (example_state\<lparr>responseQueue := [0 \<mapsto> example_request [''locality'', ''country''] 7]\<rparr>)
      \<lparr>msg_id = 0, msg_results = Some 1\<rparr> =
     Inr (example_state\<lparr>responseQueue := Map.empty\<rparr>, [Respond 7 [record_X]])
   \<and> handleResults
      (example_state\<lparr>responseQueue := [3 \<mapsto> example_request [''country''] 8]\<rparr>)
      \<lparr>msg_id = 3, msg_results = Some 85977539\<rparr> =
     Inr (example_state\<lparr>responseQueue := Map.empty\<rparr>, [Respond 8 [record_US, record_NY]])
   \<and> handleResults
      (example_state\<lparr>responseQueue := [0 \<mapsto> example_request [''locality'', ''country''] 7]\<rparr>)
      \<lparr>msg_id = 0, msg_results = Some 5\<rparr> = Inl TypeError"
  using first_hit_wins
    [of "example_state\<lparr>responseQueue := [0 \<mapsto> example_request [''locality'', ''country''] 7]\<rparr>"
        "\<lparr>msg_id = 0, msg_results = Some 1\<rparr>" "example_request [''locality'', ''country''] 7" 1]
    first_hit_wins
    [of "example_state\<lparr>responseQueue := [3 \<mapsto> example_request [''country''] 8]\<rparr>"
        "\<lparr>msg_id = 3, msg_results = Some 85977539\<rparr>" "example_request [''country''] 8" 85977539]
    first_hit_wins
    [of "example_state\<lparr>responseQueue := [0 \<mapsto> example_request [''locality'', ''country''] 7]\<rparr>"
        "\<lparr>msg_id = 0, msg_results = Some 5\<rparr>" "example_request [''locality'', ''country''] 7" 5]
  by (simp add: example_state_def example_request_def record_X_def record_NY_def record_US_def)

text \<open>
  C5 as stated, with no condition on the matched feature, fails: a lookup over all three
  layers is answered by the neighbourhood worker with a match on feature 42, which is
  not in \<^verbatim>\<open>wofData\<close>.  The handler throws; no callback is called.
\<close>

theorem hit_on_absent_feature_counterexample:
  "lookup example_layers example_state 40 (-73) None 7 =
     Inr (example_state\<lparr>requestCount := 1,
            responseQueue := [0 \<mapsto> example_request [''locality'', ''country''] 7]\<rparr>,
          [Send (Worker ''neighbourhood'') 0 \<lparr>latitude = 40, longitude = -73\<rparr>])
   \<and> handleResults
        (example_state\<lparr>requestCount := 1,
            responseQueue := [0 \<mapsto> example_request [''locality'', ''country''] 7]\<rparr>)
        \<lparr>msg_id = 0, msg_results = Some 42\<rparr> = Inl TypeError
   \<and> run example_layers example_system
        [Call 40 (-73) None 7, Reply (Worker ''neighbourhood'') 0 (Some 42)] = None"
  by (simp add: step_def lookup_def lookup_layers_def example_layers_def example_state_def
      example_system_def example_request_def js_incr_def searchWorker_def handleResults_def)

text \<open>
  C9.  The lookup of the postal-code table returns \<^verbatim>\<open>null\<close> when the country code is
  none of the seven keys of \<^verbatim>\<open>tables\<close> or when the normalized postal code is no key of
  the country's table, and the list stored under the normalized code otherwise; the
  object \<^verbatim>\<open>tables\<close> is the same after the call.  The normalized code is, for the six
  countries of the ZIP system, the leftmost five consecutive digits of the postal code,
  or, when there are none, the first five digits of what stands before the hyphen; for
  the other countries it is the upper-cased postal code without its white space.  This
  holds whatever function \<^verbatim>\<open>toUpperCase\<close> is.
\<close>

theorem postalCityMap_lookup_result:
  "postalCityMap_lookup toUpperCase (tables loadTable) isocode postalcode =
     (if isocode \<in> set (map js [''ASM'', ''GUM'', ''MNP'', ''PRI'', ''USA'', ''VIR'', ''NZL''])
      then loadTable isocode
             (if isocode \<in> set (map js [''USA'', ''ASM'', ''GUM'', ''MNP'', ''PRI'', ''VIR''])
              then (case match_five_digits postalcode of
                      Some m \<Rightarrow> m
                    | None \<Rightarrow> take 5 (filter is_digit (strip_zip4 postalcode)))
              else filter (\<lambda>c. \<not> is_space c) (toUpperCase postalcode))
      else None,
      tables loadTable)"
proof (cases "isocode \<in> set (map js [''ASM'', ''GUM'', ''MNP'', ''PRI'', ''USA'', ''VIR'', ''NZL''])")
  case True
  then have t: "tables loadTable isocode = Some (loadTable isocode)"
    by (simp only: tables_apply if_True)
  show ?thesis
    unfolding postalCityMap_lookup_def t normalizePostcode_Some
    using True by (simp only: if_True option.case Let_def split: option.split) simp
next
  case False
  then have t: "tables loadTable isocode = None"
    by (simp only: tables_apply if_False)
  show ?thesis
    unfolding postalCityMap_lookup_def t
    using False by (simp only: if_False option.case)
qed

theorem postalCityMap_lookup_result_witness:
  "postalCityMap_lookup example_toUpperCase (tables example_loadTable)
      (js ''USA'') (js ''CA 90210-1234'') = (Some [beverly_hills], tables example_loadTable)
   \<and> postalCityMap_lookup example_toUpperCase (tables example_loadTable)
      (js ''USA'') (js ''9021-07'') = (Some [], tables example_loadTable)
   \<and> postalCityMap_lookup example_toUpperCase (tables example_loadTable)
      (js ''USA'') (js ''10001'') = (None, tables example_loadTable)
   \<and> postalCityMap_lookup example_toUpperCase (tables example_loadTable)
      (js ''NZL'') (js ''60'' @ [160] @ js ''11'') = (Some [wellington], tables example_loadTable)
   \<and> postalCityMap_lookup example_toUpperCase (tables example_loadTable)
      (js ''NZL'') (js ''ab 12'') = (Some [wellington], tables example_loadTable)
   \<and> postalCityMap_lookup example_toUpperCase (tables example_loadTable)
      (js ''FRA'') (js ''90210'') = (None, tables example_loadTable)"
proof (intro conjI)
  show "postalCityMap_lookup example_toUpperCase (tables example_loadTable)
      (js ''USA'') (js ''CA 90210-1234'') = (Some [beverly_hills], tables example_loadTable)"
    using postalCityMap_lookup_result
      [of example_toUpperCase example_loadTable "js ''USA''" "js ''CA 90210-1234''"]
    by (simp add: example_loadTable_def js_def is_digit_def)
  show "postalCityMap_lookup example_toUpperCase (tables example_loadTable)
      (js ''USA'') (js ''9021-07'') = (Some [], tables example_loadTable)"
    using postalCityMap_lookup_result
      [of example_toUpperCase example_loadTable "js ''USA''" "js ''9021-07''"]
    by (simp add: example_loadTable_def js_def is_digit_def is_line_terminator_def)
  show "postalCityMap_lookup example_toUpperCase (tables example_loadTable)
      (js ''USA'') (js ''10001'') = (None, tables example_loadTable)"
    using postalCityMap_lookup_result
      [of example_toUpperCase example_loadTable "js ''USA''" "js ''10001''"]
    by (simp add: example_loadTable_def js_def is_digit_def)
  show "postalCityMap_lookup example_toUpperCase (tables example_loadTable)
      (js ''NZL'') (js ''60'' @ [160] @ js ''11'') = (Some [wellington], tables example_loadTable)"
    using postalCityMap_lookup_result
      [of example_toUpperCase example_loadTable "js ''NZL''" "js ''60'' @ [160] @ js ''11''"]
    by (simp add: example_loadTable_def js_def is_space_def example_toUpperCase_def)
  show "postalCityMap_lookup example_toUpperCase (tables example_loadTable)
      (js ''NZL'') (js ''ab 12'') = (Some [wellington], tables example_loadTable)"
    using postalCityMap_lookup_result
      [of example_toUpperCase example_loadTable "js ''NZL''" "js ''ab 12''"]
    by (simp add: example_loadTable_def js_def is_space_def example_toUpperCase_def)
  show "postalCityMap_lookup example_toUpperCase (tables example_loadTable)
      (js ''FRA'') (js ''90210'') = (None, tables example_loadTable)"
    using postalCityMap_lookup_result
      [of example_toUpperCase example_loadTable "js ''FRA''" "js ''90210''"]
    by (simp add: js_def)
qed

end
